theory Spec2Isabelle
  imports Complex_Main
begin

section \<open>JavaScript values, strings and thrown failures\<close>

text \<open>
  The fields of a thrown value that \<open>withRetry\<close> inspects (\<open>status\<close>, \<open>code\<close>,
  \<open>error.code\<close>) have the TypeScript type \<open>any\<close>. They are modelled as absent, a
  string or an integral number; \<open>message\<close> is a string or absent, as it is on every
  \<open>Error\<close> object.
\<close>

datatype jsval = JUndefined | JString string | JNumber int

text \<open>JavaScript truthiness, as \<open>x || y\<close> tests it.\<close>

fun truthy :: "jsval \<Rightarrow> bool" where
  "truthy JUndefined = False"
| "truthy (JString s) = (s \<noteq> [])"
| "truthy (JNumber n) = (n \<noteq> 0)"

definition js_or :: "jsval \<Rightarrow> jsval \<Rightarrow> jsval" where
  "js_or a b = (if truthy a then a else b)"

definition digit_char :: "nat \<Rightarrow> char" where
  "digit_char d = char_of (48 + d)"

fun nat_toString :: "nat \<Rightarrow> string" where
  "nat_toString n = (if n < 10 then [digit_char n] else nat_toString (n div 10) @ [digit_char (n mod 10)])"

definition int_toString :: "int \<Rightarrow> string" where
  "int_toString n = (if n < 0 then CHR ''-'' # nat_toString (nat (- n)) else nat_toString (nat n))"

text \<open>\<open>.toString()\<close> on a value that \<open>|| ""\<close> has already made a string or a number.\<close>

fun toString :: "jsval \<Rightarrow> string" where
  "toString JUndefined = ''undefined''"
| "toString (JString s) = s"
| "toString (JNumber n) = int_toString n"

text \<open>
  \<open>toLowerCase\<close> on the ASCII letters; a string is a list of bytes here, and \<open>includes\<close>
  compares bytes.
\<close>

definition lower_char :: "char \<Rightarrow> char" where
  "lower_char c = (let n = (of_char c :: nat) in if 65 \<le> n \<and> n \<le> 90 then char_of (n + 32) else c)"

definition toLowerCase :: "string \<Rightarrow> string" where
  "toLowerCase s = map lower_char s"

definition startsWith :: "string \<Rightarrow> string \<Rightarrow> bool" where
  "startsWith s t = (take (length t) s = t)"

text \<open>\<open>s.includes(t)\<close>: \<open>t\<close> occurs in \<open>s\<close> as a contiguous substring.\<close>

fun includes_js :: "string \<Rightarrow> string \<Rightarrow> bool" where
  "includes_js [] t = (t = [])"
| "includes_js (c # cs) t = (startsWith (c # cs) t \<or> includes_js cs t)"

record js_error =
  err_name :: string
  err_message :: "string option"
  err_status :: jsval
  err_code :: jsval
  err_inner_code :: jsval

text \<open>\<open>new Error(msg)\<close>: only \<open>name\<close> and \<open>message\<close> are set.\<close>

definition Error :: "string \<Rightarrow> js_error" where
  "Error msg = \<lparr>err_name = ''Error'', err_message = Some msg, err_status = JUndefined,
                err_code = JUndefined, err_inner_code = JUndefined\<rparr>"

text \<open>
  What a \<open>catch\<close> clause can receive: \<open>undefined\<close> (the initial value of
  \<open>lastError\<close>) or an error object.
\<close>

datatype thrown = ThrownUndefined | Thrown js_error

section \<open>The Retry Executor: \<open>withRetry\<close>\<close>

text \<open>
  \<^verbatim>\<open>const message = (error?.message || "").toLowerCase();\<close>
  \<^verbatim>\<open>const status = (error?.status || "").toString().toLowerCase();\<close>
  \<^verbatim>\<open>const code = (error?.code || error?.error?.code || "").toString();\<close>
\<close>

fun message_of :: "thrown \<Rightarrow> string" where
  "message_of ThrownUndefined = toLowerCase []"
| "message_of (Thrown e) = toLowerCase (case err_message e of None \<Rightarrow> [] | Some m \<Rightarrow> m)"

fun status_of :: "thrown \<Rightarrow> string" where
  "status_of ThrownUndefined = toLowerCase (toString (JString []))"
| "status_of (Thrown e) = toLowerCase (toString (js_or (err_status e) (JString [])))"

fun code_of :: "thrown \<Rightarrow> string" where
  "code_of ThrownUndefined = toString (JString [])"
| "code_of (Thrown e) = toString (js_or (js_or (err_code e) (err_inner_code e)) (JString []))"

text \<open>
  The first conjunct of the \<open>if\<close> in the \<open>catch\<close> block:
  \<^verbatim>\<open>code === "429" || status.includes("429") || message.includes("quota")\<close>
\<close>

definition is_rate_limited :: "thrown \<Rightarrow> bool" where
  "is_rate_limited error \<longleftrightarrow>
     code_of error = ''429'' \<or> includes_js (status_of error) ''429'' \<or> includes_js (message_of error) ''quota''"

text \<open>
  \<^verbatim>\<open>Math.pow(2, i) * 5000 + Math.random() * 3000\<close>, over the reals; \<open>r\<close> is the
  value \<open>Math.random()\<close> returned.
\<close>

definition waitTime :: "nat \<Rightarrow> real \<Rightarrow> real" where
  "waitTime i r = 2 ^ i * 5000 + r * 3000"

text \<open>What a run does besides returning, in the order it does it.\<close>

datatype event = Invoke | Sleep real | ReadAborted

text \<open>
  The action \<open>fn\<close> is given by the outcome of each of its invocations: \<open>fn i\<close> is what
  the invocation made in loop iteration \<open>i\<close> resolves or rejects with. \<open>rnd i\<close> is the
  value \<open>Math.random()\<close> returns in iteration \<open>i\<close>. The result is the value returned or
  thrown, with the log of invocations and sleeps.
\<close>

function withRetry_loop ::
  "(nat \<Rightarrow> real) \<Rightarrow> (nat \<Rightarrow> thrown + 'a) \<Rightarrow> nat \<Rightarrow> nat \<Rightarrow> thrown \<Rightarrow> event list
     \<Rightarrow> (thrown + 'a) \<times> event list" where
  "withRetry_loop rnd fn maxRetries i lastError evs =
     (if i < maxRetries then
        (case fn i of
           Inr v \<Rightarrow> (Inr v, evs @ [Invoke])
         | Inl error \<Rightarrow>
             if is_rate_limited error \<and> i < maxRetries - 1
             then withRetry_loop rnd fn maxRetries (i + 1) error
                    (evs @ [Invoke, Sleep (waitTime i (rnd i))])
             else (Inl error, evs @ [Invoke]))
      else (Inl lastError, evs))"
  by pat_completeness auto
termination
  by (relation "measure (\<lambda>(rnd, fn, maxRetries, i, lastError, evs). maxRetries - i)") auto

definition withRetry :: "(nat \<Rightarrow> real) \<Rightarrow> (nat \<Rightarrow> thrown + 'a) \<Rightarrow> nat \<Rightarrow> (thrown + 'a) \<times> event list" where
  "withRetry rnd fn maxRetries = withRetry_loop rnd fn maxRetries 0 ThrownUndefined []"

definition invocations :: "event list \<Rightarrow> nat" where
  "invocations evs = length (filter (\<lambda>e. e = Invoke) evs)"

fun sleeps :: "event list \<Rightarrow> real list" where
  "sleeps [] = []"
| "sleeps (Sleep d # es) = d # sleeps es"
| "sleeps (_ # es) = sleeps es"

text \<open>The log of \<open>k - i\<close> retried attempts followed by a last one.\<close>

definition retry_log :: "(nat \<Rightarrow> real) \<Rightarrow> nat \<Rightarrow> nat \<Rightarrow> event list" where
  "retry_log rnd i k = concat (map (\<lambda>j. [Invoke, Sleep (waitTime j (rnd j))]) [i..<k]) @ [Invoke]"

text \<open>Total time slept, in milliseconds.\<close>

definition elapsed :: "event list \<Rightarrow> real" where
  "elapsed evs = sum_list (sleeps evs)"

section \<open>The Operation Poller: \<open>pollOperation\<close>\<close>

text \<open>
  The operation handle is opaque (\<open>any\<close>) in the source. What \<open>pollOperation\<close> and its
  callers read of it: \<open>done\<close>, \<open>error\<close> (absent, or a payload with an optional
  \<open>message\<close>) and the URI of the first generated video.
\<close>

record error_payload =
  payload_message :: "string option"

record operation =
  op_name :: string
  op_done :: bool
  op_error :: "error_payload option"
  op_uri :: "string option"

text \<open>
  \<open>signal?: AbortSignal\<close>: absent, or a token whose \<open>aborted\<close> flag is read once per loop
  iteration; \<open>s p\<close> is the value the read of iteration \<open>p\<close> sees.
\<close>

type_synonym abort_signal = "nat \<Rightarrow> bool"

fun signal_aborted :: "abort_signal option \<Rightarrow> nat \<Rightarrow> bool" where
  "signal_aborted None p = False"
| "signal_aborted (Some s) p = s p"

fun signal_read :: "abort_signal option \<Rightarrow> event list" where
  "signal_read None = []"
| "signal_read (Some s) = [ReadAborted]"

text \<open>
  After the loop:
  \<^verbatim>\<open>if (currentOp.error) throw new Error(currentOp.error.message || 'Generation failed');\<close>
  \<^verbatim>\<open>return currentOp;\<close>
\<close>

definition surfaced_message :: "error_payload \<Rightarrow> string" where
  "surfaced_message err =
     (case payload_message err of
        None \<Rightarrow> ''Generation failed''
      | Some m \<Rightarrow> if m \<noteq> [] then m else ''Generation failed'')"

definition poll_result :: "operation \<Rightarrow> thrown + operation" where
  "poll_result currentOp =
     (case op_error currentOp of
        Some err \<Rightarrow> Inl (Thrown (Error (surfaced_message err)))
      | None \<Rightarrow> Inr currentOp)"

text \<open>
  The remote service is given by \<open>getVideosOperation p currentOp i\<close>, the outcome of the
  \<open>i\<close>-th attempt of poll round \<open>p\<close> on the handle \<open>currentOp\<close>; \<open>rnd p\<close> is the random
  source of the \<open>withRetry\<close> call of round \<open>p\<close>. The loop need not end: the result is
  \<open>None\<close> when it runs forever.
\<close>

partial_function (option) poll_loop ::
  "(nat \<Rightarrow> nat \<Rightarrow> real) \<Rightarrow> (nat \<Rightarrow> operation \<Rightarrow> nat \<Rightarrow> thrown + operation) \<Rightarrow> abort_signal option
     \<Rightarrow> nat \<Rightarrow> operation \<Rightarrow> event list \<Rightarrow> ((thrown + operation) \<times> event list) option" where
  "poll_loop rnd getVideosOperation signal p currentOp evs =
     (if \<not> op_done currentOp then
        (if signal_aborted signal p
         then Some (Inl (Thrown (Error ''AbortError'')), evs @ signal_read signal)
         else
           (case withRetry (rnd p) (getVideosOperation p currentOp) 7 of
              (Inl e, fetched) \<Rightarrow>
                Some (Inl e, evs @ signal_read signal @ [Sleep 10000] @ fetched)
            | (Inr newOp, fetched) \<Rightarrow>
                poll_loop rnd getVideosOperation signal (p + 1) newOp
                  (evs @ signal_read signal @ [Sleep 10000] @ fetched)))
      else Some (poll_result currentOp, evs))"

declare poll_loop.simps [code]

definition pollOperation ::
  "(nat \<Rightarrow> nat \<Rightarrow> real) \<Rightarrow> (nat \<Rightarrow> operation \<Rightarrow> nat \<Rightarrow> thrown + operation) \<Rightarrow> abort_signal option
     \<Rightarrow> operation \<Rightarrow> ((thrown + operation) \<times> event list) option" where
  "pollOperation rnd getVideosOperation signal operation =
     poll_loop rnd getVideosOperation signal 0 operation []"

text \<open>The log of one poll round that ends at attempt \<open>k\<close> of its fetch.\<close>

definition round_log :: "(nat \<Rightarrow> nat \<Rightarrow> real) \<Rightarrow> abort_signal option \<Rightarrow> (nat \<Rightarrow> nat) \<Rightarrow> nat \<Rightarrow> event list" where
  "round_log rnd signal ks p = signal_read signal @ [Sleep 10000] @ retry_log (rnd p) 0 (ks p)"

section \<open>The artifact fetch\<close>

record http_response =
  resp_status :: nat
  resp_statusText :: string
  resp_body :: string

text \<open>\<open>response.ok\<close> is the platform's flag for a status in the range 200 to 299.\<close>

definition ok :: "http_response \<Rightarrow> bool" where
  "ok response \<longleftrightarrow> 200 \<le> resp_status response \<and> resp_status response \<le> 299"

text \<open>
  \<^verbatim>\<open>`${downloadLink}&key=${apiKey}`\<close>, where \<open>apiKey\<close> is \<open>process.env.API_KEY\<close>; an
  unset variable is interpolated as the text \<open>undefined\<close>.
\<close>

definition artifact_url :: "string \<Rightarrow> string option \<Rightarrow> string" where
  "artifact_url downloadLink apiKey =
     downloadLink @ ''&key='' @ (case apiKey of None \<Rightarrow> ''undefined'' | Some k \<Rightarrow> k)"

text \<open>
  The action \<open>handleGenerate\<close> (and \<open>handleAnimate\<close>) passes to \<open>withRetry\<close>;
  \<open>fetch url i\<close> is what the request of attempt \<open>i\<close> to \<open>url\<close> resolves or rejects with.
\<close>

definition download_action ::
  "(string \<Rightarrow> nat \<Rightarrow> thrown + http_response) \<Rightarrow> string \<Rightarrow> string option \<Rightarrow> nat \<Rightarrow> thrown + string" where
  "download_action fetch downloadLink apiKey i =
     (case fetch (artifact_url downloadLink apiKey) i of
        Inl e \<Rightarrow> Inl e
      | Inr response \<Rightarrow>
          if \<not> ok response then
            (if resp_status response = 429 then Inl (Thrown (Error ''429''))
             else Inl (Thrown (Error (''Download failed: '' @ resp_statusText response))))
          else Inr (resp_body response))"

text \<open>The action \<open>handleRemedy\<close> passes: the response is not inspected.\<close>

definition remedy_download_action ::
  "(string \<Rightarrow> nat \<Rightarrow> thrown + http_response) \<Rightarrow> string \<Rightarrow> string option \<Rightarrow> nat \<Rightarrow> thrown + string" where
  "remedy_download_action fetch downloadLink apiKey i =
     (case fetch (artifact_url downloadLink apiKey) i of
        Inl e \<Rightarrow> Inl e
      | Inr res \<Rightarrow> Inr (resp_body res))"

text \<open>A server that answers every request with the given status.\<close>

definition always_status :: "nat \<Rightarrow> string \<Rightarrow> string \<Rightarrow> nat \<Rightarrow> thrown + http_response" where
  "always_status st txt url i = Inr \<lparr>resp_status = st, resp_statusText = txt, resp_body = []\<rparr>"

section \<open>Montage analysis\<close>

datatype json = JNull | JBool bool | JNum int | JStr string | JArr "json list" | JObj "(string \<times> json) list"

record clip =
  clip_data :: string
  clip_mimeType :: string

text \<open>
  The \<open>try\<close> block of \<open>analyzeVideoForMontage\<close>. \<open>JSON.parse\<close> is the platform's: it is
  the parameter \<open>parse\<close>, \<open>None\<close> where it throws.
  \<^verbatim>\<open>const jsonStr = response.text || "[]"; return JSON.parse(jsonStr)\<close>
  \<^verbatim>\<open>catch (e) { ...; return []; }\<close>
\<close>

definition parse_montage :: "(string \<Rightarrow> json option) \<Rightarrow> string option \<Rightarrow> json" where
  "parse_montage parse text =
     (let jsonStr = (case text of None \<Rightarrow> ''[]'' | Some t \<Rightarrow> if t \<noteq> [] then t else ''[]'')
      in case parse jsonStr of Some v \<Rightarrow> v | None \<Rightarrow> JArr [])"

text \<open>
  \<open>generateContent clips i\<close> is the outcome of the model call of attempt \<open>i\<close>: a failure,
  or the response's \<open>text\<close>.
\<close>

definition analyzeVideoForMontage ::
  "(nat \<Rightarrow> real) \<Rightarrow> (string \<Rightarrow> json option) \<Rightarrow> (clip list \<Rightarrow> nat \<Rightarrow> thrown + string option)
     \<Rightarrow> clip list \<Rightarrow> (thrown + json) \<times> event list" where
  "analyzeVideoForMontage rnd parse generateContent clips =
     withRetry rnd
       (\<lambda>i. case generateContent clips i of
               Inl e \<Rightarrow> Inl e
             | Inr text \<Rightarrow> Inr (parse_montage parse text))
       7"

text \<open>A stand-in for \<open>JSON.parse\<close> that knows the empty array only.\<close>

definition parse_empty_array_only :: "string \<Rightarrow> json option" where
  "parse_empty_array_only s = (if s = ''[]'' then Some (JArr []) else None)"

section \<open>The progress estimator\<close>

text \<open>
  The interval callback of \<open>VideoGenerator\<close> and \<open>LogoAnimator\<close>, over the reals;
  \<open>r\<close> is the value of \<open>Math.random()\<close>.
\<close>

definition tick :: "real \<Rightarrow> real \<Rightarrow> real" where
  "tick r prev =
     (if prev < 90 then prev + r * 1.5
      else if prev < 98 then prev + r * 0.1
      else prev)"

text \<open>
  The writes to \<open>progress\<close> during one \<open>handleGenerate\<close>, interleaved with the ticks:
  99 when \<open>pollOperation\<close> has returned an operation with a download link, 100 when the
  download has returned and the signal is not aborted, 0 on \<open>handleCancel\<close>. An event
  that the current stage does not wait for is ignored. Ticks are accepted in every
  stage (the source stops the interval when the orchestration ends).
\<close>

datatype stage = Polling | Downloading | Retrieved | Stopped

datatype ui_event =
    Tick real
  | PollResolved bool
  | BlobResolved bool
  | Failed
  | Cancel

fun ui_step :: "stage \<times> real \<Rightarrow> ui_event \<Rightarrow> stage \<times> real" where
  "ui_step (st, progress) (Tick r) = (st, tick r progress)"
| "ui_step (st, progress) Cancel = (st, 0)"
| "ui_step (Polling, progress) (PollResolved hasLink) =
     (if hasLink then (Downloading, 99) else (Stopped, progress))"
| "ui_step (Downloading, progress) (BlobResolved aborted) =
     (if aborted then (Stopped, progress) else (Retrieved, 100))"
| "ui_step (Polling, progress) Failed = (Stopped, progress)"
| "ui_step (Downloading, progress) Failed = (Stopped, progress)"
| "ui_step (st, progress) _ = (st, progress)"

definition ui_run :: "ui_event list \<Rightarrow> stage \<times> real" where
  "ui_run evs = foldl ui_step (Polling, 0) evs"

fun random_in_range :: "ui_event \<Rightarrow> bool" where
  "random_in_range (Tick r) = (0 \<le> r \<and> r < 1)"
| "random_in_range _ = True"

text \<open>What holds of the stage and the value throughout an orchestration.\<close>

definition ui_inv :: "stage \<times> real \<Rightarrow> bool" where
  "ui_inv s \<longleftrightarrow> (fst s = Polling \<longrightarrow> snd s < 981 / 10) \<and> (snd s = 100 \<longrightarrow> fst s = Retrieved)"

section \<open>Example inputs\<close>

text \<open>
  A failure as the service reports a rate limit: numeric \<open>status\<close> 429, no \<open>code\<close>.
\<close>

definition err429 :: thrown where
  "err429 = Thrown \<lparr>err_name = ''ApiError'', err_message = Some ''Too Many Requests'',
      err_status = JNumber 429, err_code = JUndefined, err_inner_code = JUndefined\<rparr>"

text \<open>An action that is rate-limited \<open>k\<close> times and then succeeds with \<open>v\<close>.\<close>

definition fails_then :: "nat \<Rightarrow> 'a \<Rightarrow> nat \<Rightarrow> thrown + 'a" where
  "fails_then k v i = (if i < k then Inl err429 else Inr v)"

text \<open>A failure that only says \<open>RESOURCE_EXHAUSTED\<close>, followed by a success.\<close>

definition resource_exhausted_once :: "nat \<Rightarrow> thrown + nat" where
  "resource_exhausted_once i = (if i = 0 then Inl (Thrown (Error ''RESOURCE_EXHAUSTED'')) else Inr 1)"

text \<open>The same message on a failure that also carries the numeric code 429.\<close>

definition resource_exhausted_429 :: thrown where
  "resource_exhausted_429 = Thrown \<lparr>err_name = ''ApiError'', err_message = Some ''RESOURCE_EXHAUSTED'',
      err_status = JUndefined, err_code = JNumber 429, err_inner_code = JUndefined\<rparr>"

text \<open>
  A poll scenario: the operation is pending for two rounds and then done; the fetch of
  round 0 is rate-limited once before it succeeds.
\<close>

definition pending_op :: operation where
  "pending_op = \<lparr>op_name = ''operations/1'', op_done = False, op_error = None, op_uri = None\<rparr>"

definition finished_op :: operation where
  "finished_op = \<lparr>op_name = ''operations/1'', op_done = True, op_error = None,
     op_uri = Some ''https://x/y''\<rparr>"

definition failed_op :: "string option \<Rightarrow> operation" where
  "failed_op m = \<lparr>op_name = ''operations/1'', op_done = True,
     op_error = Some \<lparr>payload_message = m\<rparr>, op_uri = None\<rparr>"

definition example_ops :: "nat \<Rightarrow> operation" where
  "example_ops p = (if p < 2 then pending_op else finished_op)"

definition example_ks :: "nat \<Rightarrow> nat" where
  "example_ks p = (if p = 0 then 1 else 0)"

definition example_service :: "nat \<Rightarrow> operation \<Rightarrow> nat \<Rightarrow> thrown + operation" where
  "example_service p currentOp i = (if p = 0 \<and> i = 0 then Inl err429 else Inr (example_ops (Suc p)))"

definition no_service :: "nat \<Rightarrow> operation \<Rightarrow> nat \<Rightarrow> thrown + operation" where
  "no_service p currentOp i = Inl ThrownUndefined"

text \<open>A session: two ticks, the poll returns a link, a tick, the download returns.\<close>

definition example_session :: "ui_event list" where
  "example_session = [Tick (1 / 2), Tick (9 / 10), PollResolved True, Tick (1 / 2), BlobResolved False]"

text \<open>A model that is rate-limited once and then answers with text that is not JSON.\<close>

definition garbled_model :: "clip list \<Rightarrow> nat \<Rightarrow> thrown + string option" where
  "garbled_model clips i = (if i = 0 then Inl err429 else Inr (Some ''not json''))"

section \<open>Properties of \<open>withRetry\<close>\<close>

declare withRetry_loop.simps [simp del]

lemma retry_log_step:
  "i < k \<Longrightarrow> [Invoke, Sleep (waitTime i (rnd i))] @ retry_log rnd (Suc i) k = retry_log rnd i k"
  by (simp add: retry_log_def upt_conv_Cons)

lemma retry_log_refl: "retry_log rnd k k = [Invoke]"
  by (simp add: retry_log_def)

lemma invocations_retry_log: "i \<le> k \<Longrightarrow> invocations (retry_log rnd i k) = Suc (k - i)"
proof (induction "k - i" arbitrary: i)
  case 0
  then show ?case by (simp add: retry_log_refl invocations_def)
next
  case (Suc n)
  then have lt: "i < k" by simp
  have "invocations (retry_log rnd i k) = Suc (invocations (retry_log rnd (Suc i) k))"
    unfolding retry_log_step [OF lt, symmetric] by (simp add: invocations_def)
  also have "invocations (retry_log rnd (Suc i) k) = Suc (k - Suc i)"
    using Suc by simp
  finally show ?case using lt by simp
qed

lemma withRetry_loop_return:
  "i < maxRetries \<Longrightarrow> fn i = Inr v \<Longrightarrow>
   withRetry_loop rnd fn maxRetries i lastError evs = (Inr v, evs @ [Invoke])"
  by (simp add: withRetry_loop.simps [of rnd fn maxRetries i])

lemma withRetry_loop_throw:
  "i < maxRetries \<Longrightarrow> fn i = Inl e \<Longrightarrow> \<not> is_rate_limited e \<or> \<not> i < maxRetries - 1 \<Longrightarrow>
   withRetry_loop rnd fn maxRetries i lastError evs = (Inl e, evs @ [Invoke])"
  by (auto simp add: withRetry_loop.simps [of rnd fn maxRetries i])

lemma withRetry_loop_retry:
  "i < maxRetries \<Longrightarrow> fn i = Inl e \<Longrightarrow> is_rate_limited e \<Longrightarrow> i < maxRetries - 1 \<Longrightarrow>
   withRetry_loop rnd fn maxRetries i lastError evs =
   withRetry_loop rnd fn maxRetries (i + 1) e (evs @ [Invoke, Sleep (waitTime i (rnd i))])"
  by (simp add: withRetry_loop.simps [of rnd fn maxRetries i])

text \<open>
  Every run with attempts left ends at some attempt \<open>k\<close> inside the budget: it returns
  or throws what the action did at attempt \<open>k\<close>, every earlier attempt having failed
  rate-limited and been followed by its backoff sleep.
\<close>

lemma withRetry_loop_shape:
  "i < maxRetries \<Longrightarrow>
   \<exists>k. i \<le> k \<and> k < maxRetries
     \<and> (\<forall>j. i \<le> j \<and> j < k \<longrightarrow> (\<exists>e. fn j = Inl e \<and> is_rate_limited e))
     \<and> withRetry_loop rnd fn maxRetries i lastError evs = (fn k, evs @ retry_log rnd i k)"
proof (induction rnd fn maxRetries i lastError evs rule: withRetry_loop.induct)
  case (1 rnd fn maxRetries i lastError evs)
  show ?case
  proof (cases "fn i")
    case (Inr v)
    with "1.prems" have "withRetry_loop rnd fn maxRetries i lastError evs = (fn i, evs @ retry_log rnd i i)"
      by (simp add: withRetry_loop.simps [of rnd fn maxRetries i] retry_log_refl)
    with "1.prems" show ?thesis by (intro exI [of _ i]) auto
  next
    case (Inl e)
    show ?thesis
    proof (cases "is_rate_limited e \<and> i < maxRetries - 1")
      case False
      with Inl "1.prems" have "withRetry_loop rnd fn maxRetries i lastError evs = (fn i, evs @ retry_log rnd i i)"
        using withRetry_loop_throw [of i maxRetries fn e rnd lastError evs]
        by (auto simp add: retry_log_refl)
      with "1.prems" show ?thesis by (intro exI [of _ i]) auto
    next
      case True
      then have next_in: "i + 1 < maxRetries" by arith
      from "1.IH" [OF "1.prems" Inl True next_in]
      obtain k where k: "i + 1 \<le> k" "k < maxRetries"
        "\<forall>j. i + 1 \<le> j \<and> j < k \<longrightarrow> (\<exists>e. fn j = Inl e \<and> is_rate_limited e)"
        "withRetry_loop rnd fn maxRetries (i + 1) e (evs @ [Invoke, Sleep (waitTime i (rnd i))])
           = (fn k, (evs @ [Invoke, Sleep (waitTime i (rnd i))]) @ retry_log rnd (i + 1) k)"
        by blast
      have lt: "i < k" using k(1) by simp
      have "withRetry_loop rnd fn maxRetries i lastError evs = (fn k, evs @ retry_log rnd i k)"
        using Inl True "1.prems" k(4) retry_log_step [OF lt, of rnd]
          withRetry_loop_retry [of i maxRetries fn e rnd lastError evs]
        by simp
      moreover have "\<forall>j. i \<le> j \<and> j < k \<longrightarrow> (\<exists>e. fn j = Inl e \<and> is_rate_limited e)"
      proof (intro allI impI)
        fix j assume j: "i \<le> j \<and> j < k"
        show "\<exists>e. fn j = Inl e \<and> is_rate_limited e"
        proof (cases "j = i")
          case True
          with Inl \<open>is_rate_limited e \<and> i < maxRetries - 1\<close> show ?thesis by simp
        next
          case False
          with j k(3) show ?thesis by simp
        qed
      qed
      ultimately show ?thesis using lt k(2) by (intro exI [of _ k]) auto
    qed
  qed
qed

text \<open>
  If the attempts from \<open>i\<close> up to \<open>k\<close> fail rate-limited and attempt \<open>k\<close>, still inside
  the budget, succeeds, the loop returns that success after exactly those attempts.
\<close>

lemma withRetry_loop_success:
  assumes "\<And>j. i \<le> j \<Longrightarrow> j < k \<Longrightarrow> \<exists>e. fn j = Inl e \<and> is_rate_limited e"
    and "fn k = Inr v" and "i \<le> k" and "k < maxRetries"
  shows "withRetry_loop rnd fn maxRetries i lastError evs = (Inr v, evs @ retry_log rnd i k)"
  using assms
proof (induction "k - i" arbitrary: i lastError evs)
  case 0
  then have "i = k" by simp
  with 0 show ?case
    by (simp add: withRetry_loop.simps [of rnd fn maxRetries k] retry_log_refl)
next
  case (Suc n)
  then have lt: "i < k" by simp
  from Suc.prems(1) [of i] lt obtain e where e: "fn i = Inl e" "is_rate_limited e"
    by auto
  have step: "withRetry_loop rnd fn maxRetries i lastError evs =
      withRetry_loop rnd fn maxRetries (Suc i) e (evs @ [Invoke, Sleep (waitTime i (rnd i))])"
  proof -
    have "i < maxRetries" "i < maxRetries - 1"
      using lt \<open>k < maxRetries\<close> by arith+
    with e show ?thesis
      by (simp add: withRetry_loop.simps [of rnd fn maxRetries i])
  qed
  have "withRetry_loop rnd fn maxRetries (Suc i) e (evs @ [Invoke, Sleep (waitTime i (rnd i))]) =
      (Inr v, (evs @ [Invoke, Sleep (waitTime i (rnd i))]) @ retry_log rnd (Suc i) k)"
  proof (rule Suc.hyps(1))
    show "n = k - Suc i" using Suc.hyps(2) by simp
    show "\<exists>e. fn j = Inl e \<and> is_rate_limited e" if "Suc i \<le> j" "j < k" for j
      using Suc.prems(1) [of j] that by simp
    show "fn k = Inr v" by (rule Suc.prems(2))
    show "Suc i \<le> k" using lt by simp
    show "k < maxRetries" by (rule Suc.prems(4))
  qed
  then show ?case
    using step retry_log_step [OF lt, of rnd] by simp
qed

text \<open>
  C1. If the first \<open>k\<close> invocations of the action fail with failures that
  \<open>withRetry\<close> classifies as rate-limited, \<open>k\<close> is below the default budget of 7 and
  invocation \<open>k + 1\<close> succeeds with \<open>v\<close>, then \<open>withRetry\<close> returns \<open>v\<close>, having invoked
  the action \<open>k + 1\<close> times, which is at most 7.
\<close>

theorem withRetry_returns_success_within_budget:
  assumes "\<forall>j<k. \<exists>e. fn j = Inl e \<and> is_rate_limited e"
    and "k < 7" and "fn k = Inr v"
  shows "fst (withRetry rnd fn 7) = Inr v
       \<and> invocations (snd (withRetry rnd fn 7)) = k + 1
       \<and> invocations (snd (withRetry rnd fn 7)) \<le> 7"
proof -
  have "withRetry rnd fn 7 = (Inr v, retry_log rnd 0 k)"
    unfolding withRetry_def
    using withRetry_loop_success [of 0 k fn v 7 rnd ThrownUndefined "[]"] assms by simp
  then show ?thesis
    using \<open>k < 7\<close> by (simp add: invocations_retry_log)
qed

lemma err429_rate_limited: "is_rate_limited err429"
  by code_simp

theorem withRetry_returns_success_within_budget_witness:
  "is_rate_limited err429 \<and> fails_then 2 (42::nat) 0 = Inl err429 \<and> fails_then 2 (42::nat) 1 = Inl err429
   \<and> fails_then 2 (42::nat) 2 = Inr 42
   \<and> fst (withRetry (\<lambda>_. 1 / 2) (fails_then 2 (42::nat)) 7) = Inr 42
   \<and> invocations (snd (withRetry (\<lambda>_. 1 / 2) (fails_then 2 (42::nat)) 7)) = 3"
proof -
  have h: "\<forall>j<2. \<exists>e. fails_then 2 (42::nat) j = Inl e \<and> is_rate_limited e"
    by (simp add: fails_then_def err429_rate_limited)
  have v: "fails_then 2 (42::nat) 2 = Inr 42"
    by (simp add: fails_then_def)
  have f: "fails_then 2 (42::nat) 0 = Inl err429" "fails_then 2 (42::nat) 1 = Inl err429"
    by (simp_all add: fails_then_def)
  have "fst (withRetry (\<lambda>_. 1 / 2) (fails_then 2 (42::nat)) 7) = Inr 42
      \<and> invocations (snd (withRetry (\<lambda>_. 1 / 2) (fails_then 2 (42::nat)) 7)) = 3"
    using withRetry_returns_success_within_budget [OF h _ v, of "\<lambda>_. 1 / 2"] by simp
  then show ?thesis
    by (simp only: f v err429_rate_limited)
qed

lemma sleeps_retry_log: "i \<le> k \<Longrightarrow> sleeps (retry_log rnd i k) = map (\<lambda>j. waitTime j (rnd j)) [i..<k]"
proof (induction "k - i" arbitrary: i)
  case 0
  then show ?case by (simp add: retry_log_refl)
next
  case (Suc n)
  then have lt: "i < k" by simp
  have "sleeps (retry_log rnd i k) = waitTime i (rnd i) # sleeps (retry_log rnd (Suc i) k)"
    unfolding retry_log_step [OF lt, symmetric] by simp
  also have "sleeps (retry_log rnd (Suc i) k) = map (\<lambda>j. waitTime j (rnd j)) [Suc i..<k]"
    using Suc by simp
  finally show ?case using lt by (simp add: upt_conv_Cons)
qed


lemma withRetry_shape:
  assumes "0 < maxRetries"
  shows "\<exists>k<maxRetries. withRetry rnd fn maxRetries = (fn k, retry_log rnd 0 k)
           \<and> (\<forall>j<k. \<exists>e. fn j = Inl e \<and> is_rate_limited e)"
  using withRetry_loop_shape [OF assms, of fn rnd ThrownUndefined "[]"]
  unfolding withRetry_def by auto




lemma fails_then_run:
  "k < maxRetries \<Longrightarrow> withRetry rnd (fails_then k v) maxRetries = (Inr v, retry_log rnd 0 k)"
  unfolding withRetry_def
  using withRetry_loop_success [of 0 k "fails_then k v" v maxRetries rnd ThrownUndefined "[]"]
  by (simp add: fails_then_def err429_rate_limited)

lemma retry_log_1: "retry_log rnd 0 (Suc 0) = [Invoke, Sleep (waitTime 0 (rnd 0)), Invoke]"
  by (simp add: retry_log_def)

text \<open>
  C4 (as stated) fails: \<open>withRetry\<close> takes no cancellation token and \<open>sleep\<close> is a plain
  timer, so whatever happens to a token during the backoff sleep, the run below sleeps the
  whole 6500 ms, invokes the action again and returns its success, not a Cancelled
  failure.
\<close>

theorem withRetry_sleeps_through_abort_counterexample:
  "withRetry (\<lambda>_. 1 / 2) (fails_then 1 (42::nat)) 7 = (Inr 42, [Invoke, Sleep 6500, Invoke])
   \<and> elapsed (snd (withRetry (\<lambda>_. 1 / 2) (fails_then 1 (42::nat)) 7)) = 6500"
  by (simp add: fails_then_run retry_log_1 waitTime_def elapsed_def)

text \<open>
  C4 (as amended). With a positive budget, the outcome of \<open>withRetry\<close> is the outcome of
  one invocation \<open>k\<close> of the action; each earlier invocation failed rate-limited and was
  followed by its whole backoff sleep. So \<open>withRetry\<close> never cuts a sleep short and never
  raises a failure of its own: a cancellation surfaces only when the action throws it.
\<close>

theorem withRetry_outcome_is_the_actions:
  assumes "0 < maxRetries"
  shows "\<exists>k<maxRetries. withRetry rnd fn maxRetries = (fn k, retry_log rnd 0 k)
           \<and> (\<forall>j<k. \<exists>e. fn j = Inl e \<and> is_rate_limited e)
           \<and> sleeps (retry_log rnd 0 k) = map (\<lambda>j. waitTime j (rnd j)) [0..<k]"
proof -
  obtain k where "k < maxRetries" "withRetry rnd fn maxRetries = (fn k, retry_log rnd 0 k)"
    "\<forall>j<k. \<exists>e. fn j = Inl e \<and> is_rate_limited e"
    using withRetry_shape [OF assms, of rnd fn] by blast
  then show ?thesis
    by (intro exI [of _ k]) (simp add: sleeps_retry_log)
qed

theorem withRetry_outcome_is_the_actions_witness:
  "\<exists>k<7. withRetry (\<lambda>_. 1 / 2) (fails_then 1 (42::nat)) 7 = (fails_then 1 (42::nat) k, retry_log (\<lambda>_. 1 / 2) 0 k)
           \<and> (\<forall>j<k. \<exists>e. fails_then 1 (42::nat) j = Inl e \<and> is_rate_limited e)
           \<and> sleeps (retry_log (\<lambda>_. 1 / 2) 0 k) = map (\<lambda>j. waitTime j (1 / 2)) [0..<k]"
  using withRetry_outcome_is_the_actions [of 7 "\<lambda>_. 1 / 2" "fails_then 1 (42::nat)"] by simp

lemma resource_exhausted_not_rate_limited: "\<not> is_rate_limited (Thrown (Error ''RESOURCE_EXHAUSTED''))"
  by code_simp

lemma resource_exhausted_in_message:
  "includes_js (message_of (Thrown (Error ''RESOURCE_EXHAUSTED''))) ''resource_exhausted''"
  by code_simp

lemma withRetry_first_throw:
  "0 < maxRetries \<Longrightarrow> fn 0 = Inl e \<Longrightarrow> \<not> is_rate_limited e \<Longrightarrow>
   withRetry rnd fn maxRetries = (Inl e, [Invoke])"
  unfolding withRetry_def using withRetry_loop_throw [of 0 maxRetries fn e rnd ThrownUndefined "[]"] by simp

text \<open>
  C5 (as stated) fails: a failure whose message is \<open>RESOURCE_EXHAUSTED\<close>, with no code
  and no status, is not rate-limited for \<open>withRetry\<close>; with six attempts left it is
  thrown after one invocation and no sleep.
\<close>

theorem resource_exhausted_counterexample:
  "includes_js (message_of (Thrown (Error ''RESOURCE_EXHAUSTED''))) ''resource_exhausted''
   \<and> \<not> is_rate_limited (Thrown (Error ''RESOURCE_EXHAUSTED''))
   \<and> withRetry (\<lambda>_. 0) resource_exhausted_once 7 = (Inl (Thrown (Error ''RESOURCE_EXHAUSTED'')), [Invoke])"
proof (intro conjI)
  show "withRetry (\<lambda>_. 0) resource_exhausted_once 7 = (Inl (Thrown (Error ''RESOURCE_EXHAUSTED'')), [Invoke])"
    by (rule withRetry_first_throw)
      (simp_all add: resource_exhausted_once_def resource_exhausted_not_rate_limited)
qed (rule resource_exhausted_in_message resource_exhausted_not_rate_limited)+

text \<open>
  C5 (as amended). A first failure whose message contains \<open>resource_exhausted\<close> is thrown
  at once, after one invocation and no sleep, when its code is not \<open>429\<close>, its status
  does not contain \<open>429\<close> and its message does not contain \<open>quota\<close>; when one of the
  three holds and an attempt remains, \<open>withRetry\<close> sleeps the backoff delay and goes on
  to the next attempt.
\<close>

theorem resource_exhausted_retried_only_with_429_or_quota:
  assumes "fn 0 = Inl e" and "includes_js (message_of e) ''resource_exhausted''"
  shows "(code_of e \<noteq> ''429'' \<and> \<not> includes_js (status_of e) ''429'' \<and> \<not> includes_js (message_of e) ''quota''
            \<and> 0 < maxRetries
          \<longrightarrow> withRetry rnd fn maxRetries = (Inl e, [Invoke]))
       \<and> ((code_of e = ''429'' \<or> includes_js (status_of e) ''429'' \<or> includes_js (message_of e) ''quota'')
            \<and> 1 < maxRetries
          \<longrightarrow> withRetry rnd fn maxRetries =
                withRetry_loop rnd fn maxRetries 1 e [Invoke, Sleep (waitTime 0 (rnd 0))])"
proof (intro conjI impI)
  assume "code_of e \<noteq> ''429'' \<and> \<not> includes_js (status_of e) ''429'' \<and> \<not> includes_js (message_of e) ''quota''
            \<and> 0 < maxRetries"
  then have "\<not> is_rate_limited e" "0 < maxRetries"
    by (simp_all add: is_rate_limited_def)
  then show "withRetry rnd fn maxRetries = (Inl e, [Invoke])"
    using assms(1) by (simp add: withRetry_first_throw)
next
  assume "(code_of e = ''429'' \<or> includes_js (status_of e) ''429'' \<or> includes_js (message_of e) ''quota'')
            \<and> 1 < maxRetries"
  then have "is_rate_limited e" "0 < maxRetries" "0 < maxRetries - 1"
    by (simp_all add: is_rate_limited_def)
  then show "withRetry rnd fn maxRetries =
      withRetry_loop rnd fn maxRetries 1 e [Invoke, Sleep (waitTime 0 (rnd 0))]"
    unfolding withRetry_def
    using withRetry_loop_retry [of 0 maxRetries fn e rnd ThrownUndefined "[]"] assms(1) by simp
qed

lemma resource_exhausted_429_facts:
  "includes_js (message_of resource_exhausted_429) ''resource_exhausted''"
  "code_of resource_exhausted_429 = ''429''"
  by code_simp+

theorem resource_exhausted_retried_only_with_429_or_quota_witness:
  "withRetry (\<lambda>_. 0) (\<lambda>i. if i = 0 then Inl resource_exhausted_429 else Inr (1::nat)) 7 =
     withRetry_loop (\<lambda>_. 0) (\<lambda>i. if i = 0 then Inl resource_exhausted_429 else Inr (1::nat)) 7 1
       resource_exhausted_429 [Invoke, Sleep (waitTime 0 0)]"
  using resource_exhausted_retried_only_with_429_or_quota
    [of "\<lambda>i. if i = 0 then Inl resource_exhausted_429 else Inr (1::nat)" resource_exhausted_429 7 "\<lambda>_. 0"]
  by (simp add: resource_exhausted_429_facts)

lemma error_429_not_rate_limited: "\<not> is_rate_limited (Thrown (Error ''429''))"
  by code_simp

text \<open>
  C2. The artifact fetch of \<open>handleGenerate\<close> reports a 429 response as
  \<open>new Error("429")\<close>: the text is in \<open>message\<close>, where \<open>withRetry\<close> looks for
  \<open>quota\<close> only, and \<open>code\<close> and \<open>status\<close> are absent. So the failure does not pass the
  rate-limited test, and \<open>withRetry\<close> throws it after a single request and no sleep.
  The action of \<open>handleRemedy\<close> does not look at the status: on a 429 response it
  returns the body as a success. And a response that is neither 2xx nor 429 gives a
  failure that \<open>withRetry\<close> does retry when its status text contains \<open>quota\<close>.
\<close>

theorem download_429_is_not_retried:
  "\<not> is_rate_limited (Thrown (Error ''429''))
   \<and> download_action (always_status 429 txt) downloadLink apiKey 0 = Inl (Thrown (Error ''429''))
   \<and> withRetry rnd (download_action (always_status 429 txt) downloadLink apiKey) 7
       = (Inl (Thrown (Error ''429'')), [Invoke])
   \<and> remedy_download_action (always_status 429 txt) downloadLink apiKey 0 = Inr []
   \<and> is_rate_limited (Thrown (Error (''Download failed: '' @ ''Quota Exceeded'')))"
proof -
  have a: "download_action (always_status 429 txt) downloadLink apiKey 0 = Inl (Thrown (Error ''429''))"
    by (simp add: download_action_def always_status_def ok_def)
  have b: "remedy_download_action (always_status 429 txt) downloadLink apiKey 0 = Inr []"
    by (simp add: remedy_download_action_def always_status_def)
  have c: "is_rate_limited (Thrown (Error (''Download failed: '' @ ''Quota Exceeded'')))"
    by code_simp
  show ?thesis
    using withRetry_first_throw
      [of 7 "download_action (always_status 429 txt) downloadLink apiKey" "Thrown (Error ''429'')" rnd]
    by (simp only: a b c error_429_not_rate_limited) simp
qed

section \<open>Properties of \<open>pollOperation\<close>\<close>

lemma poll_loop_done:
  "op_done currentOp \<Longrightarrow>
   poll_loop rnd getVideosOperation signal p currentOp evs = Some (poll_result currentOp, evs)"
  by (subst poll_loop.simps) simp

lemma poll_loop_aborted:
  "\<not> op_done currentOp \<Longrightarrow> signal_aborted signal p \<Longrightarrow>
   poll_loop rnd getVideosOperation signal p currentOp evs =
     Some (Inl (Thrown (Error ''AbortError'')), evs @ signal_read signal)"
  by (subst poll_loop.simps) simp

lemma poll_loop_fetch_failed:
  "\<not> op_done currentOp \<Longrightarrow> \<not> signal_aborted signal p \<Longrightarrow>
   withRetry (rnd p) (getVideosOperation p currentOp) 7 = (Inl e, fetched) \<Longrightarrow>
   poll_loop rnd getVideosOperation signal p currentOp evs =
     Some (Inl e, evs @ signal_read signal @ [Sleep 10000] @ fetched)"
  by (subst poll_loop.simps) simp

lemma poll_loop_next_round:
  "\<not> op_done currentOp \<Longrightarrow> \<not> signal_aborted signal p \<Longrightarrow>
   withRetry (rnd p) (getVideosOperation p currentOp) 7 = (Inr newOp, fetched) \<Longrightarrow>
   poll_loop rnd getVideosOperation signal p currentOp evs =
     poll_loop rnd getVideosOperation signal (p + 1) newOp
       (evs @ signal_read signal @ [Sleep 10000] @ fetched)"
  by (subst poll_loop.simps) simp

lemma poll_loop_run:
  assumes "\<And>p. p0 \<le> p \<Longrightarrow> p < n \<Longrightarrow> \<not> op_done (ops p)"
    and "op_done (ops n)"
    and "\<And>p. p0 \<le> p \<Longrightarrow> p < n \<Longrightarrow> \<not> signal_aborted signal p"
    and "\<And>p. p0 \<le> p \<Longrightarrow> p < n \<Longrightarrow> ks p < 7"
    and "\<And>p j. p0 \<le> p \<Longrightarrow> p < n \<Longrightarrow> j < ks p \<Longrightarrow> \<exists>e. get p (ops p) j = Inl e \<and> is_rate_limited e"
    and "\<And>p. p0 \<le> p \<Longrightarrow> p < n \<Longrightarrow> get p (ops p) (ks p) = Inr (ops (Suc p))"
    and "p0 \<le> n"
  shows "poll_loop rnd get signal p0 (ops p0) evs =
     Some (poll_result (ops n), evs @ concat (map (round_log rnd signal ks) [p0..<n]))"
  using assms
proof (induction "n - p0" arbitrary: p0 evs)
  case 0
  then have "p0 = n" by simp
  with 0 show ?case by (simp add: poll_loop_done)
next
  case (Suc d)
  then have lt: "p0 < n" by simp
  have fetch: "withRetry (rnd p0) (get p0 (ops p0)) 7 = (Inr (ops (Suc p0)), retry_log (rnd p0) 0 (ks p0))"
    unfolding withRetry_def
    using withRetry_loop_success [of 0 "ks p0" "get p0 (ops p0)" "ops (Suc p0)" 7 "rnd p0" ThrownUndefined "[]"]
      Suc.prems(4) [of p0] Suc.prems(5) [of p0] Suc.prems(6) [of p0] lt
    by simp
  have step: "poll_loop rnd get signal p0 (ops p0) evs =
      poll_loop rnd get signal (Suc p0) (ops (Suc p0)) (evs @ round_log rnd signal ks p0)"
  proof -
    have "\<not> op_done (ops p0)" "\<not> signal_aborted signal p0"
      using Suc.prems(1) [of p0] Suc.prems(3) [of p0] lt by simp_all
    then show ?thesis
      using poll_loop_next_round [of "ops p0" signal p0 rnd get "ops (Suc p0)"
          "retry_log (rnd p0) 0 (ks p0)" evs] fetch
      by (simp add: round_log_def)
  qed
  have "poll_loop rnd get signal (Suc p0) (ops (Suc p0)) (evs @ round_log rnd signal ks p0) =
      Some (poll_result (ops n),
        (evs @ round_log rnd signal ks p0) @ concat (map (round_log rnd signal ks) [Suc p0..<n]))"
  proof (rule Suc.hyps(1))
    show "d = n - Suc p0" using Suc.hyps(2) by simp
    show "op_done (ops n)" by (rule Suc.prems(2))
    show "Suc p0 \<le> n" using lt by simp
    show "\<not> op_done (ops p)" if "Suc p0 \<le> p" "p < n" for p
      using Suc.prems(1) [of p] that by simp
    show "\<not> signal_aborted signal p" if "Suc p0 \<le> p" "p < n" for p
      using Suc.prems(3) [of p] that by simp
    show "ks p < 7" if "Suc p0 \<le> p" "p < n" for p
      using Suc.prems(4) [of p] that by simp
    show "\<exists>e. get p (ops p) j = Inl e \<and> is_rate_limited e" if "Suc p0 \<le> p" "p < n" "j < ks p" for p j
      using Suc.prems(5) [of p j] that by simp
    show "get p (ops p) (ks p) = Inr (ops (Suc p))" if "Suc p0 \<le> p" "p < n" for p
      using Suc.prems(6) [of p] that by simp
  qed
  then show ?case
    using step lt by (simp add: upt_conv_Cons)
qed

text \<open>
  C6. If the operation is not done and the signal is already aborted at the first read,
  \<open>pollOperation\<close> throws \<open>Error("AbortError")\<close> having only read the signal: no sleep
  and no call of the remote service.
\<close>

theorem pollOperation_aborted_before_first_poll:
  assumes "\<not> op_done operation" and "s 0"
  shows "pollOperation rnd getVideosOperation (Some s) operation =
           Some (Inl (Thrown (Error ''AbortError'')), [ReadAborted])
       \<and> invocations [ReadAborted] = 0 \<and> sleeps [ReadAborted] = []"
  using assms by (simp add: pollOperation_def poll_loop_aborted invocations_def)

text \<open>
  C9. An operation that is already done and has no error is returned at once, with an
  empty log: no read of the signal, no sleep, no call. The signal is arbitrary, so this
  holds for an aborted one too.
\<close>

theorem pollOperation_returns_done_operation_unchecked:
  assumes "op_done operation" and "op_error operation = None"
  shows "pollOperation rnd getVideosOperation signal operation = Some (Inr operation, [])"
  using assms by (simp add: pollOperation_def poll_loop_done poll_result_def)

text \<open>
  C7 (as amended). Let the operation be pending for \<open>n\<close> rounds, \<open>ops p\<close> being the
  handle at the start of round \<open>p\<close>, with the signal not aborted at the reads of these
  rounds, and let the fetch of round \<open>p\<close> return \<open>ops (p + 1)\<close> after \<open>ks p < 7\<close>
  rate-limited failures. Then each round reads the signal, sleeps 10000 ms and fetches
  through \<open>withRetry\<close>, and when \<open>ops n\<close> is done \<open>pollOperation\<close> returns it if it has no
  error, and otherwise throws an \<open>Error\<close> whose message is the payload's message when
  that is non-empty and \<open>Generation failed\<close> when it is empty or absent.
\<close>

theorem pollOperation_polls_until_done:
  assumes "\<forall>p<n. \<not> op_done (ops p)" and "op_done (ops n)"
    and "\<forall>p<n. \<not> signal_aborted signal p"
    and "\<forall>p<n. ks p < 7 \<and> (\<forall>j<ks p. \<exists>e. get p (ops p) j = Inl e \<and> is_rate_limited e)
                 \<and> get p (ops p) (ks p) = Inr (ops (Suc p))"
  shows "pollOperation rnd get signal (ops 0) =
           Some (poll_result (ops n), concat (map (round_log rnd signal ks) [0..<n]))
       \<and> (op_error (ops n) = None \<longrightarrow> poll_result (ops n) = Inr (ops n))
       \<and> (\<forall>err. op_error (ops n) = Some err \<longrightarrow>
             poll_result (ops n) = Inl (Thrown (Error
               (case payload_message err of
                  None \<Rightarrow> ''Generation failed''
                | Some m \<Rightarrow> if m \<noteq> [] then m else ''Generation failed''))))"
proof -
  have "poll_loop rnd get signal 0 (ops 0) [] =
      Some (poll_result (ops n), [] @ concat (map (round_log rnd signal ks) [0..<n]))"
    by (rule poll_loop_run) (use assms in simp_all)
  then show ?thesis
    by (simp add: pollOperation_def poll_result_def surfaced_message_def)
qed

theorem pollOperation_aborted_before_first_poll_witness:
  "pollOperation (\<lambda>_ _. 1 / 2) example_service (Some (\<lambda>_. True)) pending_op =
     Some (Inl (Thrown (Error ''AbortError'')), [ReadAborted])"
  using pollOperation_aborted_before_first_poll
    [of pending_op "\<lambda>_. True" "\<lambda>_ _. 1 / 2" example_service]
  by (simp add: pending_op_def)

theorem pollOperation_returns_done_operation_unchecked_witness:
  "pollOperation (\<lambda>_ _. 1 / 2) no_service (Some (\<lambda>_. True)) finished_op = Some (Inr finished_op, [])"
  using pollOperation_returns_done_operation_unchecked
    [of finished_op "\<lambda>_ _. 1 / 2" no_service "Some (\<lambda>_. True)"]
  by (simp add: finished_op_def)

text \<open>
  C7 (as stated) fails where the error payload has an empty message: the failure thrown
  carries the text \<open>Generation failed\<close>, not the payload's message.
\<close>

theorem pollOperation_empty_message_counterexample:
  "pollOperation (\<lambda>_ _. 0) no_service None (failed_op (Some [])) =
     Some (Inl (Thrown (Error ''Generation failed'')), [])
   \<and> payload_message \<lparr>payload_message = Some []\<rparr> = Some []
   \<and> Error ''Generation failed'' \<noteq> Error []"
  by (simp add: pollOperation_def poll_loop_done poll_result_def surfaced_message_def failed_op_def Error_def)

lemma example_hyps:
  "\<forall>p<2. \<not> op_done (example_ops p)" "op_done (example_ops 2)"
  "\<forall>p<2. \<not> signal_aborted (Some (\<lambda>_. False)) p"
  "\<forall>p<2. example_ks p < 7
      \<and> (\<forall>j<example_ks p. \<exists>e. example_service p (example_ops p) j = Inl e \<and> is_rate_limited e)
      \<and> example_service p (example_ops p) (example_ks p) = Inr (example_ops (Suc p))"
  by (simp_all add: example_ops_def example_ks_def example_service_def pending_op_def finished_op_def
      err429_rate_limited)

lemma example_log:
  "concat (map (round_log (\<lambda>_ _. 1 / 2) (Some (\<lambda>_. False)) example_ks) [0..<2]) =
     [ReadAborted, Sleep 10000, Invoke, Sleep 6500, Invoke, ReadAborted, Sleep 10000, Invoke]"
  by (simp add: round_log_def example_ks_def retry_log_1 retry_log_refl waitTime_def upt_rec numeral_2_eq_2)

theorem pollOperation_polls_until_done_witness:
  "pollOperation (\<lambda>_ _. 1 / 2) example_service (Some (\<lambda>_. False)) (example_ops 0) =
     Some (Inr finished_op,
       [ReadAborted, Sleep 10000, Invoke, Sleep 6500, Invoke, ReadAborted, Sleep 10000, Invoke])"
proof -
  have "pollOperation (\<lambda>_ _. 1 / 2) example_service (Some (\<lambda>_. False)) (example_ops 0) =
      Some (poll_result (example_ops 2),
        concat (map (round_log (\<lambda>_ _. 1 / 2) (Some (\<lambda>_. False)) example_ks) [0..<2]))"
    using pollOperation_polls_until_done
      [of 2 example_ops "Some (\<lambda>_. False)" example_ks example_service "\<lambda>_ _. 1 / 2"]
      example_hyps
    by blast
  then show ?thesis
    by (simp add: example_log example_ops_def poll_result_def finished_op_def)
qed

section \<open>Properties of the progress estimator\<close>

lemma tick_mono: "0 \<le> r \<Longrightarrow> prev \<le> tick r prev"
  by (simp add: tick_def)

lemma tick_below: "r < 1 \<Longrightarrow> prev < 981 / 10 \<Longrightarrow> tick r prev < 981 / 10"
  by (simp add: tick_def)

lemma tick_100: "r < 1 \<Longrightarrow> tick r prev = 100 \<Longrightarrow> prev = 100"
  by (simp add: tick_def split: if_splits)

lemma ui_step_inv:
  assumes "ui_inv s" and "random_in_range ev"
  shows "ui_inv (ui_step s ev)"
proof (cases s)
  case (Pair st progress)
  show ?thesis
  proof (cases ev)
    case (Tick r)
    with assms Pair show ?thesis
      using tick_below [of r progress] tick_100 [of r progress]
      by (auto simp add: ui_inv_def)
  next
    case (PollResolved hasLink)
    with assms Pair show ?thesis
      by (cases st) (auto simp add: ui_inv_def)
  next
    case (BlobResolved aborted)
    with assms Pair show ?thesis
      by (cases st) (auto simp add: ui_inv_def)
  next
    case Failed
    with assms Pair show ?thesis
      by (cases st) (auto simp add: ui_inv_def)
  next
    case Cancel
    with assms Pair show ?thesis
      by (auto simp add: ui_inv_def)
  qed
qed

lemma foldl_ui_step_inv:
  "ui_inv s \<Longrightarrow> list_all random_in_range evs \<Longrightarrow> ui_inv (foldl ui_step s evs)"
  by (induction evs arbitrary: s) (simp_all add: ui_step_inv)

lemma ticks_keep_stage: "fst (foldl ui_step (st, progress) (map Tick rs)) = st"
  by (induction rs arbitrary: progress) simp_all

text \<open>
  C8. With every \<open>Math.random()\<close> value in \<open>[0, 1)\<close>: a tick never lowers the value;
  while the orchestration is still polling (no terminal operation state seen), the
  value is below 99, whatever ticks and cancellations have happened, and a run of ticks
  alone stays in that stage; and the value is 100 only in the stage reached by a
  successful retrieval of the artifact.
\<close>

theorem progress_estimator_invariant:
  assumes "list_all random_in_range evs" and "0 \<le> r" and "r < 1"
  shows "prev \<le> tick r prev
       \<and> (fst (ui_run evs) = Polling \<longrightarrow> snd (ui_run evs) < 99)
       \<and> (snd (ui_run evs) = 100 \<longrightarrow> fst (ui_run evs) = Retrieved)
       \<and> fst (ui_run (map Tick rs)) = Polling"
proof -
  have "ui_inv (Polling, 0)" by (simp add: ui_inv_def)
  then have "ui_inv (ui_run evs)"
    unfolding ui_run_def using assms(1) by (rule foldl_ui_step_inv)
  then show ?thesis
    using assms(2) by (auto simp add: ui_inv_def tick_mono ui_run_def ticks_keep_stage)
qed

theorem progress_estimator_invariant_witness:
  "ui_run example_session = (Retrieved, 100)
   \<and> ui_run (take 2 example_session) = (Polling, 21 / 10)
   \<and> (0::real) \<le> tick (1 / 2) 0"
  using progress_estimator_invariant [of example_session "1 / 2" 0 "[]"]
  by (simp add: example_session_def ui_run_def tick_def)

section \<open>Properties of the montage analysis\<close>

text \<open>
  C10. Let \<open>JSON.parse\<close> read \<open>[]\<close> as the empty array. If the model call succeeds at an
  attempt inside the budget (the earlier ones having been rate-limited) with a text that
  is absent, empty or rejected by \<open>JSON.parse\<close>, then \<open>analyzeVideoForMontage\<close> returns
  the empty list, for every clip list.
\<close>

theorem analyzeVideoForMontage_bad_text_gives_empty_list:
  assumes "parse ''[]'' = Some (JArr [])"
    and "\<forall>j<k. \<exists>e. generateContent clips j = Inl e \<and> is_rate_limited e"
    and "k < 7"
    and "generateContent clips k = Inr text"
    and "text = None \<or> text = Some [] \<or> (\<exists>t. text = Some t \<and> parse t = None)"
  shows "fst (analyzeVideoForMontage rnd parse generateContent clips) = Inr (JArr [])"
proof -
  have empty: "parse_montage parse text = JArr []"
    using assms(1,5) by (auto simp add: parse_montage_def)
  let ?fn = "\<lambda>i. case generateContent clips i of Inl e \<Rightarrow> Inl e | Inr text \<Rightarrow> Inr (parse_montage parse text)"
  have "withRetry_loop rnd ?fn 7 0 ThrownUndefined [] = (Inr (JArr []), [] @ retry_log rnd 0 k)"
  proof (rule withRetry_loop_success)
    show "\<exists>e. ?fn j = Inl e \<and> is_rate_limited e" if "0 \<le> j" "j < k" for j
      using assms(2) that by auto
    show "?fn k = Inr (JArr [])" using assms(4) empty by simp
  qed (use assms(3) in simp_all)
  then show ?thesis
    by (simp add: analyzeVideoForMontage_def withRetry_def)
qed

theorem analyzeVideoForMontage_bad_text_gives_empty_list_witness:
  "fst (analyzeVideoForMontage (\<lambda>_. 1 / 2) parse_empty_array_only garbled_model []) = Inr (JArr [])"
proof -
  have a: "parse_empty_array_only ''[]'' = Some (JArr [])"
    by (simp add: parse_empty_array_only_def)
  have b: "\<forall>j<1. \<exists>e. garbled_model [] j = Inl e \<and> is_rate_limited e"
    by (simp add: garbled_model_def err429_rate_limited)
  have c: "garbled_model [] 1 = Inr (Some ''not json'')"
    by (simp add: garbled_model_def)
  have d: "Some ''not json'' = None \<or> Some ''not json'' = Some [] \<or>
      (\<exists>t. Some ''not json'' = Some t \<and> parse_empty_array_only t = None)"
    by (simp add: parse_empty_array_only_def)
  show ?thesis
    using analyzeVideoForMontage_bad_text_gives_empty_list
      [of parse_empty_array_only 1 garbled_model "[]" "Some ''not json''" "\<lambda>_. 1 / 2"] a b c d
    by simp
qed

end
